theory Spec2Isabelle
  imports Main "HOL-Library.Sublist"
begin

text \<open>
  A shallow embedding of the client of mcp-obsidian (\<open>src/mcp_obsidian/obsidian.py\<close>):
  the whitelist check on vault paths, the wrapper that normalizes the failures of a
  request, the listing and search filters and the batch fetch. Python's exceptions are
  values of a sum type, the network is a function that answers each request, and every
  request and sleep is recorded in a log.
\<close>

section \<open>Python string operations used by the client\<close>

text \<open>
  Strings are lists of 8-bit characters. The model is exact on ASCII text; Python's
  \<open>str\<close> counts code points, so a character beyond ASCII is outside the model.
\<close>

definition py_strip :: "string \<Rightarrow> string \<Rightarrow> string" where
  \<comment> \<open>\<open>s.strip(chars)\<close>: removes every leading and every trailing character that is in \<open>chars\<close>.\<close>
  "py_strip chars s =
     rev (dropWhile (\<lambda>c. c \<in> set chars) (rev (dropWhile (\<lambda>c. c \<in> set chars) s)))"

definition startswith :: "string \<Rightarrow> string \<Rightarrow> bool" where
  \<comment> \<open>\<open>s.startswith(p)\<close>\<close>
  "startswith s p = (take (length p) s = p)"

definition py_replace_char :: "char \<Rightarrow> string \<Rightarrow> string \<Rightarrow> string" where
  \<comment> \<open>\<open>s.replace(c, new)\<close> for a one-character \<open>c\<close>\<close>
  "py_replace_char c new s = concat (map (\<lambda>x. if x = c then new else [x]) s)"

fun py_join :: "string \<Rightarrow> string list \<Rightarrow> string" where
  "py_join sep [] = []"
| "py_join sep [x] = x"
| "py_join sep (x # y # ys) = x @ sep @ py_join sep (y # ys)"

section \<open>\<open>fnmatch.fnmatch\<close>\<close>

text \<open>
  The glob matcher of the Python standard library, after \<open>fnmatch.translate\<close> of
  CPython 3.11, on a POSIX system (where \<open>os.path.normcase\<close> is the identity).
  \<open>translate\<close> turns a pattern into a regular expression; here it produces the list of
  the expression's pieces: \<open>STAR\<close> (\<open>.*\<close>), \<open>DOT\<close> (\<open>.\<close>, with DOTALL), \<open>LIT c\<close>
  (the escaped character), \<open>SET body\<close> (the character class \<open>[body]\<close>) and \<open>NEVER\<close>
  (\<open>(?!)\<close>).
\<close>

datatype glob_tok = STAR | DOT | LIT char | SET string | NEVER

definition bracket_end :: "string \<Rightarrow> (string \<times> string) option" where
  \<comment> \<open>The text after a \<open>[\<close>: the index \<open>j\<close> of the closing bracket is searched as the source
      does (an optional \<open>!\<close>, then an optional \<open>]\<close>, then up to the next \<open>]\<close>). The result
      is \<open>stuff = pat[i:j]\<close> and the text after the closing bracket, or None when no
      bracket closes the set.\<close>
  "bracket_end s =
     (let a = (if take 1 s = ''!'' then 1 else 0);
          b = (if take 1 (drop a s) = '']'' then a + 1 else a);
          j = b + length (takeWhile (\<lambda>c. c \<noteq> CHR '']'') (drop b s))
      in if j \<ge> length s then None else Some (take j s, drop (j + 1) s))"

fun split_chunks :: "nat \<Rightarrow> string \<Rightarrow> string \<Rightarrow> string list" where
  \<comment> \<open>The loop \<open>k = pat.find('-', k, j)\<close>: \<open>skip\<close> is the number of characters before the
      search for the next hyphen starts, \<open>cur\<close> the chunk read so far. The last chunk
      may be empty.\<close>
  "split_chunks skip cur [] = [cur]"
| "split_chunks skip cur (c # cs) =
     (if skip = 0 \<and> c = CHR ''-'' then cur # split_chunks 2 [] cs
      else split_chunks (skip - 1) (cur @ [c]) cs)"

definition close_chunks :: "string list \<Rightarrow> string list" where
  \<comment> \<open>\<open>if chunk: chunks.append(chunk) else: chunks[-1] += '-'\<close>\<close>
  "close_chunks chunks =
     (if last chunks \<noteq> [] then chunks
      else butlast (butlast chunks) @ [last (butlast chunks) @ ''-''])"

fun remove_empty_ranges :: "string list \<Rightarrow> string list" where
  \<comment> \<open>The loop over \<open>k = len(chunks)-1 .. 1\<close>: a range whose start is above its end is
      removed with both its ends. Every chunk compared here is non-empty.\<close>
  "remove_empty_ranges [] = []"
| "remove_empty_ranges (c # cs) =
     (case remove_empty_ranges cs of
        [] \<Rightarrow> [c]
      | d # ds \<Rightarrow>
          if (of_char (last c) :: nat) > of_char (hd d) then (butlast c @ tl d) # ds
          else c # d # ds)"

definition set_tok :: "string \<Rightarrow> glob_tok" where
  \<comment> \<open>The piece of the regular expression for \<open>stuff = pat[i:j]\<close>.\<close>
  "set_tok stuff =
     (let s1 = (if CHR ''-'' \<notin> set stuff then py_replace_char (CHR 0x5C) [CHR 0x5C, CHR 0x5C] stuff
                else py_join ''-''
                       (map (\<lambda>s. py_replace_char (CHR ''-'') [CHR 0x5C, CHR ''-'']
                                    (py_replace_char (CHR 0x5C) [CHR 0x5C, CHR 0x5C] s))
                          (remove_empty_ranges
                             (close_chunks
                                (split_chunks (if take 1 stuff = ''!'' then 2 else 1) [] stuff)))));
          s2 = concat (map (\<lambda>x. if x \<in> set ''&~|'' then [CHR 0x5C, x] else [x]) s1)
      in if s2 = [] then NEVER
         else if s2 = ''!'' then DOT
         else if hd s2 = CHR ''!'' then SET (CHR ''^'' # tl s2)
         else if hd s2 \<in> set ''^['' then SET (CHR 0x5C # s2)
         else SET s2)"

lemma bracket_end_shorter: "bracket_end s = Some (stuff, r) \<Longrightarrow> length r < length s"
  by (auto simp: bracket_end_def Let_def split: if_splits)

function translate :: "string \<Rightarrow> glob_tok list" where
  "translate [] = []"
| "translate (c # rest) =
     (if c = CHR ''*'' then
        (case translate rest of STAR # ts \<Rightarrow> STAR # ts | ts \<Rightarrow> STAR # ts)
      else if c = CHR ''?'' then DOT # translate rest
      else if c = CHR ''['' then
        (case bracket_end rest of
           None \<Rightarrow> LIT c # translate rest
         | Some (stuff, rest') \<Rightarrow> set_tok stuff # translate rest')
      else LIT c # translate rest)"
  by pat_completeness auto
termination
  by (relation "measure length") (auto dest: bracket_end_shorter)

text \<open>
  A character class of Python's \<open>re\<close>: a backslash quotes the next character, an
  unquoted hyphen between two characters makes a range, a leading \<open>^\<close> negates.
\<close>

fun class_atoms :: "string \<Rightarrow> (bool \<times> char) list" where
  "class_atoms [] = []"
| "class_atoms [c] = [(False, c)]"
| "class_atoms (c # d # r) =
     (if c = CHR 0x5C then (True, d) # class_atoms r else (False, c) # class_atoms (d # r))"

fun atom_ranges :: "(bool \<times> char) list \<Rightarrow> (char \<times> char) list" where
  "atom_ranges (a # h # b # r) =
     (if h = (False, CHR ''-'') then (snd a, snd b) # atom_ranges r
      else (snd a, snd a) # atom_ranges (h # b # r))"
| "atom_ranges (a # r) = (snd a, snd a) # atom_ranges r"
| "atom_ranges [] = []"

definition in_ranges :: "(char \<times> char) list \<Rightarrow> char \<Rightarrow> bool" where
  "in_ranges rs c =
     list_ex (\<lambda>(lo, hi). (of_char lo :: nat) \<le> of_char c \<and> (of_char c :: nat) \<le> of_char hi) rs"

definition class_match :: "string \<Rightarrow> char \<Rightarrow> bool" where
  "class_match body c =
     (if take 1 body = ''^'' then \<not> in_ranges (atom_ranges (class_atoms (tl body))) c
      else in_ranges (atom_ranges (class_atoms body)) c)"

fun tok_match :: "glob_tok \<Rightarrow> char \<Rightarrow> bool" where
  "tok_match DOT c = True"
| "tok_match (LIT x) c = (x = c)"
| "tok_match (SET body) c = class_match body c"
| "tok_match NEVER c = False"
| "tok_match STAR c = True"

fun glob_match :: "glob_tok list \<Rightarrow> string \<Rightarrow> bool" where
  \<comment> \<open>The whole name must match (\<open>\Z\<close>); \<open>STAR\<close> takes any run of characters.\<close>
  "glob_match [] s = (s = [])"
| "glob_match (STAR # ts) [] = glob_match ts []"
| "glob_match (STAR # ts) (c # s) = (glob_match ts (c # s) \<or> glob_match (STAR # ts) s)"
| "glob_match (t # ts) [] = False"
| "glob_match (t # ts) (c # s) = (tok_match t c \<and> glob_match ts s)"

definition fnmatch :: "string \<Rightarrow> string \<Rightarrow> bool" where
  "fnmatch name pat = glob_match (translate pat) name"

definition lower_char :: "char \<Rightarrow> char" where
  "lower_char c =
     (if (65::nat) \<le> of_char c \<and> (of_char c :: nat) \<le> 90
      then char_of (of_char c + (32::nat)) else c)"

definition py_lower :: "string \<Rightarrow> string" where
  \<comment> \<open>\<open>s.lower()\<close> on ASCII text\<close>
  "py_lower s = map lower_char s"

definition is_space :: "char \<Rightarrow> bool" where
  \<comment> \<open>the ASCII characters that \<open>str.strip()\<close> removes\<close>
  "is_space c =
     (let n = (of_char c :: nat) in (9 \<le> n \<and> n \<le> 13) \<or> (28 \<le> n \<and> n \<le> 32))"

definition py_strip_ws :: "string \<Rightarrow> string" where
  \<comment> \<open>\<open>s.strip()\<close>\<close>
  "py_strip_ws s = rev (dropWhile is_space (rev (dropWhile is_space s)))"

fun py_split :: "char \<Rightarrow> string \<Rightarrow> string list" where
  \<comment> \<open>\<open>s.split(sep)\<close> for a one-character separator\<close>
  "py_split sep [] = [[]]"
| "py_split sep (c # cs) =
     (if c = sep then [] # py_split sep cs
      else (case py_split sep cs of [] \<Rightarrow> [[c]] | w # ws \<Rightarrow> (c # w) # ws))"

fun show_nat :: "nat \<Rightarrow> string" where
  "show_nat n =
     (if n < 10 then [char_of (48 + n)]
      else show_nat (n div 10) @ [char_of (48 + n mod 10)])"

declare show_nat.simps [simp del]

definition show_int :: "int \<Rightarrow> string" where
  \<comment> \<open>\<open>str(n)\<close> of a Python int\<close>
  "show_int i = (if i < 0 then CHR ''-'' # show_nat (nat (- i)) else show_nat (nat i))"

section \<open>JSON values as Python objects\<close>

text \<open>
  What \<open>response.json()\<close> returns: None, a bool, an int, a str, a list or a dict (the
  pairs of a \<open>JObject\<close> are the dict's items, with distinct keys). Floats are left out.
\<close>

datatype json =
    JNull
  | JBool bool
  | JNum int
  | JString string
  | JArray "json list"
  | JObject "(string \<times> json) list"

definition hex_digit :: "nat \<Rightarrow> char" where
  "hex_digit d = (if d < 10 then char_of (48 + d) else char_of (87 + d))"

definition str_repr :: "string \<Rightarrow> string" where
  \<comment> \<open>\<open>repr(s)\<close> of an ASCII str\<close>
  "str_repr s =
     (let q = (if CHR 0x27 \<in> set s \<and> CHR 0x22 \<notin> set s then CHR 0x22 else CHR 0x27)
      in [q] @ concat (map (\<lambda>c.
             if c = q \<or> c = CHR 0x5C then [CHR 0x5C, c]
             else if c = CHR 0x09 then [CHR 0x5C, CHR ''t'']
             else if c = CHR 0x0A then [CHR 0x5C, CHR ''n'']
             else if c = CHR 0x0D then [CHR 0x5C, CHR ''r'']
             else if (of_char c :: nat) < 32 \<or> (of_char c :: nat) = 127
               then [CHR 0x5C, CHR ''x'', hex_digit (of_char c div 16), hex_digit (of_char c mod 16)]
             else [c]) s) @ [q])"

fun py_repr :: "json \<Rightarrow> string" where
  "py_repr JNull = ''None''"
| "py_repr (JBool b) = (if b then ''True'' else ''False'')"
| "py_repr (JNum n) = show_int n"
| "py_repr (JString s) = str_repr s"
| "py_repr (JArray xs) = ''['' @ py_join '', '' (map py_repr xs) @ '']''"
| "py_repr (JObject kvs) =
     ''{'' @ py_join '', '' (map (\<lambda>kv. str_repr (fst kv) @ '': '' @ py_repr (snd kv)) kvs) @ ''}''"

definition py_str :: "json \<Rightarrow> string" where
  \<comment> \<open>\<open>str(v)\<close>, as an f-string formats a value\<close>
  "py_str v = (case v of JString s \<Rightarrow> s | _ \<Rightarrow> py_repr v)"

definition type_name :: "json \<Rightarrow> string" where
  "type_name v =
     (case v of JNull \<Rightarrow> ''NoneType'' | JBool _ \<Rightarrow> ''bool'' | JNum _ \<Rightarrow> ''int''
      | JString _ \<Rightarrow> ''str'' | JArray _ \<Rightarrow> ''list'' | JObject _ \<Rightarrow> ''dict'')"

section \<open>Responses, exceptions and the network\<close>

record response =
  status_code :: nat
  reason :: string
  url :: string
  content :: string      \<comment> \<open>the body as bytes\<close>
  text_body :: string    \<comment> \<open>\<open>response.text\<close>\<close>
  json :: "string + json"
    \<comment> \<open>the outcome of \<open>response.json()\<close>: the value, or the message of the
        \<open>JSONDecodeError\<close> it raises when the body is not JSON\<close>

text \<open>
  The exceptions the client can meet, each a subclass of \<open>Exception\<close>. The string is
  what \<open>str(e)\<close> gives. \<open>JSONDecodeError\<close> is the one \<open>response.json()\<close> raises;
  in requests 2.27 and later it is a subclass of \<open>RequestException\<close>.
\<close>

datatype error =
    HTTPError response
  | RequestException string
  | JSONDecodeError string
  | KeyError string
  | TypeError string
  | AttributeError string
  | PermissionError string
  | Exception string

definition http_error_msg :: "response \<Rightarrow> string" where
  "http_error_msg r =
     show_nat (status_code r) @ (if status_code r < 500 then '' Client Error: '' else '' Server Error: '')
       @ reason r @ '' for url: '' @ url r"

fun err_str :: "error \<Rightarrow> string" where
  \<comment> \<open>\<open>str(e)\<close>\<close>
  "err_str (HTTPError r) = http_error_msg r"
| "err_str (RequestException m) = m"
| "err_str (JSONDecodeError m) = m"
| "err_str (KeyError m) = m"
| "err_str (TypeError m) = m"
| "err_str (AttributeError m) = m"
| "err_str (PermissionError m) = m"
| "err_str (Exception m) = m"

definition raise_for_status :: "response \<Rightarrow> error + unit" where
  "raise_for_status r =
     (if 400 \<le> status_code r \<and> status_code r < 600 then Inl (HTTPError r) else Inr ())"

definition response_json :: "response \<Rightarrow> error + json" where
  \<comment> \<open>\<open>response.json()\<close>\<close>
  "response_json r =
     (case json r of Inl m \<Rightarrow> Inl (JSONDecodeError m) | Inr v \<Rightarrow> Inr v)"

text \<open>
  Effects are recorded in a log: every request sent and every sleep, in order. The
  network is a function of the log up to and including the request: it answers with a
  response or fails (connection refused, timeout, TLS), which requests raises as a
  \<open>RequestException\<close>. Headers, the TLS flag and the timeouts are not recorded.
\<close>

datatype event = Sleep nat | HttpGet string | HttpPost string json

datatype transport = Responds response | Fails string

type_synonym network = "event list \<Rightarrow> transport"

definition send :: "network \<Rightarrow> event list \<Rightarrow> event \<Rightarrow> (error + response) \<times> event list" where
  \<comment> \<open>\<open>requests.get\<close>, \<open>requests.post\<close>, \<open>session.get\<close>\<close>
  "send net log req =
     (let log' = log @ [req]
      in (case net log' of Fails m \<Rightarrow> Inl (RequestException m) | Responds r \<Rightarrow> Inr r, log'))"

section \<open>The client object\<close>

record obsidian =
  api_key :: string
  protocol :: string
  host :: string
  port :: int
  verify_ssl :: bool
  whitelist :: "string list"
  whitelist_enabled :: bool

subsection \<open>\<open>_is_path_allowed\<close>\<close>

fun match_whitelist :: "string \<Rightarrow> string list \<Rightarrow> bool" where
  \<comment> \<open>The loop \<open>for pattern in self.whitelist\<close> over the normalized path.\<close>
  "match_whitelist normalized_path [] = False"
| "match_whitelist normalized_path (pattern # rest) =
     (let normalized_pattern = py_strip ''/'' pattern in
        if normalized_path = normalized_pattern then True
        else if startswith normalized_path (normalized_pattern @ ''/'') then True
        else if fnmatch normalized_path normalized_pattern then True
        else match_whitelist normalized_path rest)"

definition is_path_allowed :: "obsidian \<Rightarrow> string \<Rightarrow> bool" where
  "is_path_allowed self path =
     (if \<not> whitelist_enabled self then True
      else match_whitelist (py_strip ''/'' path) (whitelist self))"

subsection \<open>\<open>__init__\<close>\<close>

definition init ::
  "string option \<Rightarrow> string \<Rightarrow> string \<Rightarrow> string \<Rightarrow> int \<Rightarrow> bool \<Rightarrow> string list option \<Rightarrow> obsidian" where
  \<comment> \<open>\<open>env_whitelist\<close> is the environment variable OBSIDIAN_WHITELIST (None when unset).
      The \<open>timeout\<close> attribute is a constant and is left out.\<close>
  "init env_whitelist api_key0 protocol0 host0 port0 verify_ssl0 whitelist0 =
     (let protocol1 = py_lower protocol0;
          wl = (case whitelist0 of
                  None \<Rightarrow>
                    (let whitelist_env = (case env_whitelist of None \<Rightarrow> [] | Some v \<Rightarrow> v)
                     in if whitelist_env \<noteq> []
                        then map py_strip_ws
                               (filter (\<lambda>path. py_strip_ws path \<noteq> []) (py_split (CHR '','') whitelist_env))
                        else [])
                | Some w \<Rightarrow> w)
      in \<lparr> api_key = api_key0,
           protocol = (if protocol1 = ''http'' then ''http'' else ''https''),
           host = host0, port = port0, verify_ssl = verify_ssl0,
           whitelist = wl, whitelist_enabled = (length wl > 0) \<rparr>)"

definition get_base_url :: "obsidian \<Rightarrow> string" where
  "get_base_url self = protocol self @ ''://'' @ host self @ '':'' @ show_int (port self)"

subsection \<open>\<open>_safe_call\<close>\<close>

definition quoted :: "string \<Rightarrow> string" where
  "quoted s = [CHR 0x27] @ s @ [CHR 0x27]"

definition no_attribute :: "json \<Rightarrow> string \<Rightarrow> error" where
  "no_attribute v attr =
     AttributeError (quoted (type_name v) @ '' object has no attribute '' @ quoted attr)"

definition and_then :: "error + 'a \<Rightarrow> ('a \<Rightarrow> error + 'b) \<Rightarrow> error + 'b" where
  \<comment> \<open>sequencing: an exception of the first statement skips the rest\<close>
  "and_then r f = (case r of Inl e \<Rightarrow> Inl e | Inr v \<Rightarrow> f v)"

definition dict_get :: "(string \<times> json) list \<Rightarrow> string \<Rightarrow> json \<Rightarrow> json" where
  \<comment> \<open>\<open>d.get(key, default)\<close>\<close>
  "dict_get kvs key dflt = (case map_of kvs key of Some v \<Rightarrow> v | None \<Rightarrow> dflt)"

fun safe_call :: "error + 'a \<Rightarrow> error + 'a" where
  \<comment> \<open>The argument is the outcome of \<open>f()\<close>. An exception raised inside an \<open>except\<close> clause
      is not caught by the clauses of the same \<open>try\<close>.\<close>
  "safe_call (Inr v) = Inr v"
| "safe_call (Inl (HTTPError r)) =
     and_then (if content r \<noteq> [] then response_json r else Inr (JObject []))
       (\<lambda>error_data.
          case error_data of
            JObject kvs \<Rightarrow>
              (let code = dict_get kvs ''errorCode'' (JNum (- 1));
                   message = dict_get kvs ''message'' (JString ''<unknown>'')
               in Inl (Exception (''Error '' @ py_str code @ '': '' @ py_str message)))
          | v \<Rightarrow> Inl (no_attribute v ''get''))"
| "safe_call (Inl (RequestException m)) = Inl (Exception (''Request failed: '' @ m))"
| "safe_call (Inl (JSONDecodeError m)) = Inl (Exception (''Request failed: '' @ m))"
| "safe_call (Inl e) = Inl e"

subsection \<open>\<open>_validate_path_access\<close>, \<open>_filter_files_by_whitelist\<close>\<close>

definition validate_path_access :: "obsidian \<Rightarrow> string \<Rightarrow> error + unit" where
  "validate_path_access self path =
     (if \<not> is_path_allowed self path
      then Inl (PermissionError (''Access denied: Path '' @ quoted path @ '' is not in the whitelist''))
      else Inr ())"

definition is_path_allowed_dyn :: "obsidian \<Rightarrow> json \<Rightarrow> error + bool" where
  \<comment> \<open>\<open>_is_path_allowed\<close> on a value that came out of JSON: a value that is not a str has
      no \<open>strip\<close>, which shows once the whitelist is enabled.\<close>
  "is_path_allowed_dyn self v =
     (case v of
        JString path \<Rightarrow> Inr (is_path_allowed self path)
      | _ \<Rightarrow> if \<not> whitelist_enabled self then Inr True else Inl (no_attribute v ''strip''))"

definition py_iter :: "json \<Rightarrow> error + json list" where
  \<comment> \<open>\<open>for x in v\<close>: a list gives its items, a dict its keys, a str its characters\<close>
  "py_iter v =
     (case v of
        JArray xs \<Rightarrow> Inr xs
      | JObject kvs \<Rightarrow> Inr (map (\<lambda>kv. JString (fst kv)) kvs)
      | JString s \<Rightarrow> Inr (map (\<lambda>c. JString [c]) s)
      | _ \<Rightarrow> Inl (TypeError (quoted (type_name v) @ '' object is not iterable'')))"

definition py_getitem :: "json \<Rightarrow> string \<Rightarrow> error + json" where
  \<comment> \<open>\<open>v[key]\<close> for a str key\<close>
  "py_getitem v key =
     (case v of
        JObject kvs \<Rightarrow> (case map_of kvs key of None \<Rightarrow> Inl (KeyError (str_repr key)) | Some x \<Rightarrow> Inr x)
      | JArray _ \<Rightarrow> Inl (TypeError ''list indices must be integers or slices, not str'')
      | JString _ \<Rightarrow> Inl (TypeError (''string indices must be integers, not '' @ quoted ''str''))
      | _ \<Rightarrow> Inl (TypeError (quoted (type_name v) @ '' object is not subscriptable'')))"

fun filter_loop :: "obsidian \<Rightarrow> (json \<Rightarrow> error + json) \<Rightarrow> json list \<Rightarrow> error + json list" where
  \<comment> \<open>The filtering loops: \<open>key\<close> computes the path checked for an item; an item is kept
      when that path is allowed; the first exception ends the loop.\<close>
  "filter_loop self key [] = Inr []"
| "filter_loop self key (x # xs) =
     and_then (key x) (\<lambda>path.
       and_then (is_path_allowed_dyn self path) (\<lambda>ok.
         and_then (filter_loop self key xs) (\<lambda>ys. Inr (if ok then x # ys else ys))))"

definition filter_files_by_whitelist :: "obsidian \<Rightarrow> json \<Rightarrow> error + json" where
  "filter_files_by_whitelist self files =
     (if \<not> whitelist_enabled self then Inr files
      else and_then (py_iter files) (\<lambda>xs.
             and_then (filter_loop self Inr xs) (\<lambda>ys. Inr (JArray ys))))"

subsection \<open>The vault operations\<close>

text \<open>
  Every operation takes the network and the log and returns its outcome with the new log.
\<close>

definition list_files_in_vault :: "obsidian \<Rightarrow> network \<Rightarrow> event list \<Rightarrow> (error + json) \<times> event list" where
  "list_files_in_vault self net log =
     (let (r, log1) = send net log (HttpGet (get_base_url self @ ''/vault/''))
      in (safe_call
            (and_then r (\<lambda>response.
             and_then (raise_for_status response) (\<lambda>_.
             and_then (response_json response) (\<lambda>body.
             and_then (py_getitem body ''files'') (\<lambda>files.
               filter_files_by_whitelist self files))))), log1))"

definition full_path :: "string \<Rightarrow> json \<Rightarrow> json" where
  \<comment> \<open>\<open>f"{dirpath}/{file}" if dirpath else file\<close>\<close>
  "full_path dirpath file =
     (if dirpath \<noteq> [] then JString (dirpath @ ''/'' @ py_str file) else file)"

definition list_files_in_dir ::
  "obsidian \<Rightarrow> network \<Rightarrow> event list \<Rightarrow> string \<Rightarrow> (error + json) \<times> event list" where
  "list_files_in_dir self net log dirpath =
     (case validate_path_access self dirpath of
        Inl e \<Rightarrow> (Inl e, log)
      | Inr _ \<Rightarrow>
          (let (r, log1) = send net log (HttpGet (get_base_url self @ ''/vault/'' @ dirpath @ ''/''))
           in (safe_call
                 (and_then r (\<lambda>response.
                  and_then (raise_for_status response) (\<lambda>_.
                  and_then (response_json response) (\<lambda>body.
                  and_then (py_getitem body ''files'') (\<lambda>files.
                  and_then (py_iter files) (\<lambda>xs.
                  and_then (filter_loop self (\<lambda>file. Inr (full_path dirpath file)) xs) (\<lambda>ys.
                    Inr (JArray ys)))))))), log1)))"

definition get_text :: "network \<Rightarrow> event list \<Rightarrow> string \<Rightarrow> (error + string) \<times> event list" where
  \<comment> \<open>the inner \<open>call_fn\<close> of the two read operations: GET, \<open>raise_for_status\<close>, the text\<close>
  "get_text net log u =
     (let (r, log1) = send net log (HttpGet u)
      in (and_then r (\<lambda>response.
          and_then (raise_for_status response) (\<lambda>_. Inr (text_body response))), log1))"

definition get_file_contents ::
  "obsidian \<Rightarrow> network \<Rightarrow> event list \<Rightarrow> string \<Rightarrow> (error + string) \<times> event list" where
  "get_file_contents self net log filepath =
     (case validate_path_access self filepath of
        Inl e \<Rightarrow> (Inl e, log)
      | Inr _ \<Rightarrow>
          (let (r, log1) = get_text net log (get_base_url self @ ''/vault/'' @ filepath)
           in (safe_call r, log1)))"

subsection \<open>\<open>get_batch_file_contents\<close>\<close>

definition block :: "string \<Rightarrow> string \<Rightarrow> string" where
  \<comment> \<open>\<open>f"# {filepath}\n\n{body}\n\n---\n\n"\<close>\<close>
  "block filepath body =
     ''# '' @ filepath @ [CHR 0x0A, CHR 0x0A] @ body @ [CHR 0x0A, CHR 0x0A] @ ''---''
       @ [CHR 0x0A, CHR 0x0A]"

definition batch_try ::
  "obsidian \<Rightarrow> network \<Rightarrow> event list \<Rightarrow> nat \<Rightarrow> string \<Rightarrow> (error + string) \<times> event list" where
  \<comment> \<open>the body of the \<open>try\<close> for the item of index \<open>i\<close>; a value is the block appended\<close>
  "batch_try self net log i filepath =
     (case validate_path_access self filepath of
        Inl e \<Rightarrow> (Inl e, log)
      | Inr _ \<Rightarrow>
          (let log1 = (if i > 0 then log @ [Sleep 100] else log);
               (r, log2) = get_text net log1 (get_base_url self @ ''/vault/'' @ filepath)
           in (and_then (safe_call r) (\<lambda>content. Inr (block filepath content)), log2)))"

definition batch_item ::
  "obsidian \<Rightarrow> network \<Rightarrow> event list \<Rightarrow> nat \<Rightarrow> string \<Rightarrow> string \<times> event list" where
  \<comment> \<open>the \<open>try\<close> with its two \<open>except\<close> clauses: \<open>PermissionError\<close>, then \<open>Exception\<close>\<close>
  "batch_item self net log i filepath =
     (case batch_try self net log i filepath of
        (Inr b, log1) \<Rightarrow> (b, log1)
      | (Inl (PermissionError m), log1) \<Rightarrow> (block filepath m, log1)
      | (Inl e, log1) \<Rightarrow> (block filepath (''Error reading file: '' @ err_str e), log1))"

fun batch_loop ::
  "obsidian \<Rightarrow> network \<Rightarrow> event list \<Rightarrow> nat \<Rightarrow> string list \<Rightarrow> string list \<times> event list" where
  \<comment> \<open>\<open>for i, filepath in enumerate(filepaths)\<close>, from index \<open>i\<close>; the blocks appended to
      \<open>result\<close>, in order\<close>
  "batch_loop self net log i [] = ([], log)"
| "batch_loop self net log i (filepath # rest) =
     (let (b, log1) = batch_item self net log i filepath;
          (bs, log2) = batch_loop self net log1 (Suc i) rest
      in (b # bs, log2))"

definition get_batch_file_contents ::
  "obsidian \<Rightarrow> network \<Rightarrow> event list \<Rightarrow> string list \<Rightarrow> string \<times> event list" where
  "get_batch_file_contents self net log filepaths =
     (let (result, log1) = batch_loop self net log 0 filepaths in (concat result, log1))"

subsection \<open>\<open>search_json\<close>\<close>

definition result_path :: "json \<Rightarrow> error + json" where
  \<comment> \<open>\<open>result.get('path', result.get('filename', ''))\<close>\<close>
  "result_path result =
     (case result of
        JObject kvs \<Rightarrow> Inr (dict_get kvs ''path'' (dict_get kvs ''filename'' (JString [])))
      | v \<Rightarrow> Inl (no_attribute v ''get''))"

definition search_json ::
  "obsidian \<Rightarrow> network \<Rightarrow> event list \<Rightarrow> json \<Rightarrow> (error + json) \<times> event list" where
  "search_json self net log query =
     (let (r, log1) = send net log (HttpPost (get_base_url self @ ''/search/'') query)
      in (safe_call
            (and_then r (\<lambda>response.
             and_then (raise_for_status response) (\<lambda>_.
             and_then (response_json response) (\<lambda>results.
               if whitelist_enabled self
               then and_then (py_iter results) (\<lambda>xs.
                    and_then (filter_loop self result_path xs) (\<lambda>ys. Inr (JArray ys)))
               else Inr results)))), log1))"

section \<open>Example clients and servers\<close>

definition example_client :: "string list \<Rightarrow> obsidian" where
  \<comment> \<open>a client for the default server address, constructed with the given whitelist\<close>
  "example_client patterns = init None [] ''https'' ''127.0.0.1'' 27124 False (Some patterns)"

definition not_json :: "string + json" where
  \<comment> \<open>\<open>response.json()\<close> on a body that does not start a JSON value\<close>
  "not_json = Inl ''Expecting value: line 1 column 1 (char 0)''"

definition answer :: "nat \<Rightarrow> string \<Rightarrow> string \<Rightarrow> string + json \<Rightarrow> response" where
  \<comment> \<open>a response with the given status, reason phrase, body text and outcome of parsing it\<close>
  "answer code phrase body parsed =
     \<lparr>status_code = code, reason = phrase, url = [], content = body, text_body = body,
      json = parsed\<rparr>"

definition dq :: string where
  \<comment> \<open>the double quote of a JSON text\<close>
  "dq = [CHR 0x22]"

definition listing_server :: network where
  \<comment> \<open>answers every request with the entries \<open>a.md\<close>, \<open>img.png\<close>, \<open>docs\<close>\<close>
  "listing_server l =
     Responds (answer 200 ''OK''
       (''{'' @ dq @ ''files'' @ dq @ '': ['' @ dq @ ''a.md'' @ dq @ '', '' @ dq @ ''img.png'' @ dq
          @ '', '' @ dq @ ''docs'' @ dq @ '']}'')
       (Inr (JObject [(''files'', JArray [JString ''a.md'', JString ''img.png'', JString ''docs''])])))"

definition search_server :: network where
  \<comment> \<open>answers every request with one result that has no \<open>path\<close> and no \<open>filename\<close>\<close>
  "search_server l =
     Responds (answer 200 ''OK'' (''[{'' @ dq @ ''score'' @ dq @ '': 1}]'')
       (Inr (JArray [JObject [(''score'', JNum 1)]])))"

definition gateway_server :: network where
  \<comment> \<open>answers every request with 502 and an HTML page\<close>
  "gateway_server l = Responds (answer 502 ''Bad Gateway'' ''<html>Bad Gateway</html>'' not_json)"

definition batch_server :: network where
  \<comment> \<open>answers the first request with \<open>hello\<close>, every later one with 404 and no body\<close>
  "batch_server l =
     (if length l = 1 then Responds (answer 200 ''OK'' ''hello'' not_json)
      else Responds (answer 404 ''Not Found'' [] not_json))"

section \<open>Readings of the specification, for comparison\<close>

definition strip_one_separator :: "string \<Rightarrow> string" where
  \<comment> \<open>The normalization as the specification words it: exactly one leading and one
      trailing separator are removed, further ones stay.\<close>
  "strip_one_separator s =
     (let s1 = (if take 1 s = ''/'' then tl s else s)
      in if s1 \<noteq> [] \<and> last s1 = CHR ''/'' then butlast s1 else s1)"

section \<open>Normalization of paths and patterns\<close>

lemma all_same_replicate: "\<forall>x\<in>set xs. x = c \<Longrightarrow> xs = replicate (length xs) c"
  by (induction xs) auto

lemma dropWhile_replicate_front: "P c \<Longrightarrow> dropWhile P (replicate n c @ xs) = dropWhile P xs"
  by (induction n) auto

lemma trim_pad:
  assumes "P c"
  shows "rev (dropWhile P (rev (dropWhile P (replicate n c @ p @ replicate m c))))
         = rev (dropWhile P (rev (dropWhile P p)))"
proof -
  have a: "dropWhile P (replicate n c @ p @ replicate m c) = dropWhile P (p @ replicate m c)"
    using assms by (rule dropWhile_replicate_front)
  show ?thesis
  proof (cases "\<forall>x\<in>set p. P x")
    case True
    then have c: "dropWhile P p = []" by simp
    from True assms have "\<forall>x\<in>set (p @ replicate m c). P x" by auto
    then have b: "dropWhile P (p @ replicate m c) = []" by (simp only: dropWhile_eq_Nil_conv)
    show ?thesis by (simp only: a b c)
  next
    case False
    then have "dropWhile P (p @ replicate m c) = dropWhile P p @ replicate m c"
      by (auto simp: dropWhile_append1)
    then show ?thesis using assms by (simp add: a dropWhile_replicate_front)
  qed
qed

lemma py_strip_pad:
  "c \<in> set chars \<Longrightarrow> py_strip chars (replicate n c @ p @ replicate m c) = py_strip chars p"
  unfolding py_strip_def by (rule trim_pad)

lemma trim_decompose:
  "p = takeWhile P p @ rev (dropWhile P (rev (dropWhile P p))) @ rev (takeWhile P (rev (dropWhile P p)))"
proof -
  have "rev (dropWhile P p) = takeWhile P (rev (dropWhile P p)) @ dropWhile P (rev (dropWhile P p))"
    by simp
  then have "rev (rev (dropWhile P p))
       = rev (takeWhile P (rev (dropWhile P p)) @ dropWhile P (rev (dropWhile P p)))"
    by (rule arg_cong)
  then have "dropWhile P p
       = rev (dropWhile P (rev (dropWhile P p))) @ rev (takeWhile P (rev (dropWhile P p)))"
    by (simp only: rev_rev_ident rev_append)
  then have "takeWhile P p @ dropWhile P p
       = takeWhile P p @ rev (dropWhile P (rev (dropWhile P p))) @ rev (takeWhile P (rev (dropWhile P p)))"
    by (rule arg_cong)
  then show ?thesis by (simp only: takeWhile_dropWhile_id)
qed

lemma py_strip_decompose:
  "\<exists>n m. p = replicate n c @ py_strip [c] p @ replicate m c"
proof -
  let ?P = "\<lambda>x. x \<in> set [c]"
  have 2: "takeWhile ?P p = replicate (length (takeWhile ?P p)) c"
    by (rule all_same_replicate) (auto dest: set_takeWhileD)
  have 4: "rev (takeWhile ?P (rev (dropWhile ?P p)))
           = replicate (length (rev (takeWhile ?P (rev (dropWhile ?P p))))) c"
    by (rule all_same_replicate) (auto dest: set_takeWhileD)
  have "p = takeWhile ?P p @ py_strip [c] p @ rev (takeWhile ?P (rev (dropWhile ?P p)))"
    unfolding py_strip_def by (rule trim_decompose)
  with 2 4 show ?thesis by metis
qed

lemma last_dropWhile: "dropWhile P zs \<noteq> [] \<Longrightarrow> last (dropWhile P zs) = last zs"
  by (induction zs) auto

lemma trim_no_trail: "take 1 (dropWhile P ys) = [x] \<Longrightarrow> \<not> P x"
proof (cases "dropWhile P ys")
  case Nil
  assume "take 1 (dropWhile P ys) = [x]"
  with Nil show ?thesis by (metis take_Nil list.distinct(1))
next
  case (Cons y rest)
  assume "take 1 (dropWhile P ys) = [x]"
  with Cons have "x = y" by simp
  moreover from Cons have "\<not> P y" by (simp add: dropWhile_eq_Cons_conv)
  ultimately show ?thesis by simp
qed

lemma trim_no_lead:
  assumes "take 1 (rev (dropWhile P (rev (dropWhile P p)))) = [x]"
  shows "\<not> P x"
proof (cases "rev (dropWhile P (rev (dropWhile P p)))")
  case Nil
  with assms show ?thesis by simp
next
  case (Cons y rest)
  with assms have xy: "x = y" by simp
  from Cons have d: "dropWhile P (rev (dropWhile P p)) = rev rest @ [y]"
    by (metis rev.simps(2) rev_rev_ident)
  then have ne: "dropWhile P (rev (dropWhile P p)) \<noteq> []" by simp
  then have "last (dropWhile P (rev (dropWhile P p))) = last (rev (dropWhile P p))"
    by (rule last_dropWhile)
  with d have l: "last (rev (dropWhile P p)) = y" by simp
  show ?thesis
  proof (cases "dropWhile P p")
    case Nil
    with ne show ?thesis by simp
  next
    case (Cons z zs)
    then have "\<not> P z" by (simp add: dropWhile_eq_Cons_conv)
    moreover from Cons l have "z = y" by simp
    ultimately show ?thesis using xy by simp
  qed
qed

lemma match_whitelist_pad_patterns:
  "match_whitelist np (map (\<lambda>pat. replicate n (CHR ''/'') @ pat @ replicate m (CHR ''/'')) wl)
   = match_whitelist np wl"
  by (induction wl) (simp_all add: py_strip_pad)

section \<open>Claim C1: normalization in the access check\<close>

text \<open>
  C1, as amended. \<open>_is_path_allowed\<close> normalizes the path and every pattern with
  \<open>strip('/')\<close>, which removes all leading and all trailing separators, not one of
  each: the input is the normalized string with nothing but separators around it, the
  normalized string neither begins nor ends with a separator, and the decision does not
  change when any number of separators is put around the path or around every pattern.
  Separators inside the string are kept.
\<close>

theorem C1_normalization_strips_all_separators:
  "(\<exists>n m. path = replicate n (CHR ''/'') @ py_strip ''/'' path @ replicate m (CHR ''/''))
   \<and> take 1 (py_strip ''/'' path) \<noteq> ''/''
   \<and> take 1 (rev (py_strip ''/'' path)) \<noteq> ''/''
   \<and> is_path_allowed self (replicate n (CHR ''/'') @ path @ replicate m (CHR ''/''))
       = is_path_allowed self path
   \<and> is_path_allowed
         (self\<lparr>whitelist := map (\<lambda>pat. replicate n (CHR ''/'') @ pat @ replicate m (CHR ''/''))
                                (whitelist self)\<rparr>) path
       = is_path_allowed self path"
proof -
  have a: "\<exists>n m. path = replicate n (CHR ''/'') @ py_strip ''/'' path @ replicate m (CHR ''/'')"
    by (rule py_strip_decompose)
  have b: "take 1 (py_strip ''/'' path) \<noteq> ''/''"
    unfolding py_strip_def using trim_no_lead [of "\<lambda>c. c \<in> set ''/''" path "CHR ''/''"] by auto
  have c: "take 1 (rev (py_strip ''/'' path)) \<noteq> ''/''"
    unfolding py_strip_def rev_rev_ident
    using trim_no_trail [of "\<lambda>c. c \<in> set ''/''" _ "CHR ''/''"] by auto
  have d: "is_path_allowed self (replicate n (CHR ''/'') @ path @ replicate m (CHR ''/''))
           = is_path_allowed self path"
    by (simp add: is_path_allowed_def py_strip_pad)
  have e: "is_path_allowed
         (self\<lparr>whitelist := map (\<lambda>pat. replicate n (CHR ''/'') @ pat @ replicate m (CHR ''/''))
                                (whitelist self)\<rparr>) path
       = is_path_allowed self path"
    by (simp add: is_path_allowed_def match_whitelist_pad_patterns)
  from a b c d e show ?thesis by blast
qed

text \<open>
  Witness of C1. The theorem at the path \<open>//a//b/\<close>, and at two separators before and one after the
  path \<open>a//b\<close>.
\<close>

theorem C1_witness:
  "take 1 (py_strip ''/'' ''//a//b/'') \<noteq> ''/''
   \<and> is_path_allowed (example_client [''a''])
        (replicate 2 (CHR ''/'') @ ''a//b'' @ replicate 1 (CHR ''/''))
       = is_path_allowed (example_client [''a'']) ''a//b''"
  using C1_normalization_strips_all_separators
    [where path = "''//a//b/''"]
    C1_normalization_strips_all_separators
    [where path = "''a//b''" and n = 2 and m = 1
       and self = "example_client [''a'']"]
  by blast

text \<open>
  C1 as stated fails: a path that begins with two separators has no leading separator
  left after normalization, and it is allowed by the pattern \<open>notes\<close>, which a path
  with one separator left would not be.
\<close>

theorem C1_counterexample:
  "py_strip ''/'' ''//notes'' = ''notes''
   \<and> strip_one_separator ''//notes'' = ''/notes''
   \<and> is_path_allowed (example_client [''notes'']) ''//notes''
   \<and> \<not> match_whitelist (strip_one_separator ''//notes'') [''notes'']"
  by code_simp

section \<open>Facts about the examples\<close>


lemma example_base_url: "get_base_url (example_client patterns) = ''https://127.0.0.1:27124''"
proof -
  have "show_nat 27124 = ''27124''"
    by (simp add: show_nat.simps char_of_eq_iff take_bit_eq_mod)
  then show ?thesis
    by (simp add: get_base_url_def example_client_def init_def Let_def show_int_def py_lower_def
        lower_char_def)
qed

lemma example_whitelist:
  "whitelist (example_client patterns) = patterns"
  "whitelist_enabled (example_client patterns) = (patterns \<noteq> [])"
  by (simp_all add: example_client_def init_def)

section \<open>Claim C2: the error body of a failed request\<close>

text \<open>
  C2, where the code departs from it. For a response with a failure status,
  \<open>_safe_call\<close> reads the error body with \<open>response.json()\<close> inside the \<open>except\<close>
  clause. A body that is not empty and is not JSON makes that call raise, and the
  exception leaves \<open>_safe_call\<close> as it is: no \<open>Error -1: <unknown>\<close> is produced. An
  empty body does give \<open>Error -1: <unknown>\<close>.
\<close>

theorem C2_unparsable_error_body_is_not_normalized:
  "(content r \<noteq> [] \<and> json r = Inl m \<longrightarrow>
      safe_call (Inl (HTTPError r)) = Inl (JSONDecodeError m))
   \<and> (content r = [] \<longrightarrow> safe_call (Inl (HTTPError r)) = Inl (Exception ''Error -1: <unknown>''))
   \<and> (is_path_allowed self path
        \<and> net (log @ [HttpGet (get_base_url self @ ''/vault/'' @ path)]) = Responds r
        \<and> 400 \<le> status_code r \<and> status_code r < 600
        \<and> content r \<noteq> [] \<and> json r = Inl m \<longrightarrow>
      fst (get_file_contents self net log path) = Inl (JSONDecodeError m))"
proof -
  have "show_int (- 1) = ''-1''"
    by (simp add: show_int_def show_nat.simps char_of_eq_iff take_bit_eq_mod)
  then show ?thesis
    by (simp add: and_then_def response_json_def dict_get_def py_str_def get_file_contents_def
        validate_path_access_def get_text_def send_def Let_def raise_for_status_def)
qed

text \<open>
  Witness of C2. The theorem at a 502 answer with an HTML body, at a 404 answer with no body, and at
  the read of \<open>a.md\<close> through a gateway that answers 502 with an HTML page.
\<close>

theorem C2_witness:
  "safe_call (Inl (HTTPError (answer 502 ''Bad Gateway'' ''<html>Bad Gateway</html>'' not_json))
       :: error + string)
     = Inl (JSONDecodeError ''Expecting value: line 1 column 1 (char 0)'')
   \<and> safe_call (Inl (HTTPError (answer 404 ''Not Found'' [] not_json)) :: error + string)
     = Inl (Exception ''Error -1: <unknown>'')
   \<and> fst (get_file_contents (example_client []) gateway_server [] ''a.md'')
     = Inl (JSONDecodeError ''Expecting value: line 1 column 1 (char 0)'')"
proof -
  have a: "is_path_allowed (example_client []) ''a.md''"
    by (simp add: is_path_allowed_def example_whitelist)
  from a
    C2_unparsable_error_body_is_not_normalized
      [where r = "answer 502 ''Bad Gateway'' ''<html>Bad Gateway</html>'' not_json"
         and m = "''Expecting value: line 1 column 1 (char 0)''" and 'a = string
         and self = "example_client []" and path = "''a.md''" and net = gateway_server
         and log = "[]"]
    C2_unparsable_error_body_is_not_normalized
      [where r = "answer 404 ''Not Found'' [] not_json" and 'a = string]
  show ?thesis by (simp add: answer_def not_json_def gateway_server_def)
qed

section \<open>Claim C3: the three interpretations of a pattern\<close>

lemma is_path_allowed_init:
  "is_path_allowed (init env key p h po v (Some wl)) path
   = (wl = [] \<or> match_whitelist (py_strip ''/'' path) wl)"
  by (simp add: is_path_allowed_def init_def Let_def)

lemma match_whitelist_list_ex:
  "match_whitelist np wl
   = list_ex (\<lambda>pattern. np = py_strip ''/'' pattern
                \<or> startswith np (py_strip ''/'' pattern @ ''/'')
                \<or> fnmatch np (py_strip ''/'' pattern)) wl"
  by (induction wl) (simp_all add: Let_def)

lemma example_exact: "match_whitelist (py_strip ''/'' ''projects/alpha'') [''projects/alpha'', ''daily/*.md'']" by code_simp
lemma example_directory: "match_whitelist (py_strip ''/'' ''projects/alpha/notes.md'') [''projects/alpha'', ''daily/*.md'']" by code_simp
lemma example_false_prefix: "\<not> match_whitelist (py_strip ''/'' ''projects/alphabeta'') [''projects/alpha'', ''daily/*.md'']" by code_simp
lemma example_glob: "match_whitelist (py_strip ''/'' ''daily/2024-01-01.md'') [''projects/alpha'', ''daily/*.md'']" by code_simp
lemma example_glob_crosses: "match_whitelist (py_strip ''/'' ''daily/sub/2024.md'') [''projects/alpha'', ''daily/*.md'']" by code_simp
lemma example_interpretations: "startswith ''projects/alpha/notes.md'' (''projects/alpha'' @ ''/'')
   \<and> \<not> startswith ''projects/alphabeta'' (''projects/alpha'' @ ''/'')
   \<and> \<not> fnmatch ''projects/alphabeta'' ''projects/alpha''
   \<and> fnmatch ''daily/2024-01-01.md'' ''daily/*.md''
   \<and> fnmatch ''daily/sub/2024.md'' ''daily/*.md''" by code_simp

text \<open>
  C3. With the patterns \<open>projects/alpha\<close> and \<open>daily/*.md\<close>: \<open>projects/alpha\<close> is
  allowed (it equals the first pattern), \<open>projects/alpha/notes.md\<close> is allowed (it
  starts with the pattern and a separator), \<open>projects/alphabeta\<close> is denied (it does
  not start with the pattern and a separator, and the glob does not match it),
  \<open>daily/2024-01-01.md\<close> and \<open>daily/sub/2024.md\<close> are allowed by the glob, whose
  \<open>*\<close> runs over a separator. For an enabled whitelist a path is allowed exactly when
  some pattern, taken in order, equals it, or is a directory prefix of it, or matches it
  as a glob, each after normalization.
\<close>

theorem C3_whitelist_examples:
  "(let self = init env key p h po v (Some [''projects/alpha'', ''daily/*.md''])
    in is_path_allowed self ''projects/alpha''
       \<and> is_path_allowed self ''projects/alpha/notes.md''
       \<and> \<not> is_path_allowed self ''projects/alphabeta''
       \<and> is_path_allowed self ''daily/2024-01-01.md''
       \<and> is_path_allowed self ''daily/sub/2024.md'')
   \<and> startswith ''projects/alpha/notes.md'' (''projects/alpha'' @ ''/'')
   \<and> \<not> startswith ''projects/alphabeta'' (''projects/alpha'' @ ''/'')
   \<and> \<not> fnmatch ''projects/alphabeta'' ''projects/alpha''
   \<and> fnmatch ''daily/2024-01-01.md'' ''daily/*.md''
   \<and> fnmatch ''daily/sub/2024.md'' ''daily/*.md''
   \<and> (whitelist_enabled self' \<longrightarrow>
        is_path_allowed self' path
        = list_ex (\<lambda>pattern. py_strip ''/'' path = py_strip ''/'' pattern
                     \<or> startswith (py_strip ''/'' path) (py_strip ''/'' pattern @ ''/'')
                     \<or> fnmatch (py_strip ''/'' path) (py_strip ''/'' pattern)) (whitelist self'))"
proof -
  have a: "let self = init env key p h po v (Some [''projects/alpha'', ''daily/*.md''])
    in is_path_allowed self ''projects/alpha''
       \<and> is_path_allowed self ''projects/alpha/notes.md''
       \<and> \<not> is_path_allowed self ''projects/alphabeta''
       \<and> is_path_allowed self ''daily/2024-01-01.md''
       \<and> is_path_allowed self ''daily/sub/2024.md''"
    unfolding Let_def is_path_allowed_init
    using example_exact example_directory example_false_prefix example_glob example_glob_crosses
    by simp
  have b: "whitelist_enabled self' \<longrightarrow>
        is_path_allowed self' path
        = list_ex (\<lambda>pattern. py_strip ''/'' path = py_strip ''/'' pattern
                     \<or> startswith (py_strip ''/'' path) (py_strip ''/'' pattern @ ''/'')
                     \<or> fnmatch (py_strip ''/'' path) (py_strip ''/'' pattern)) (whitelist self')"
    by (simp add: is_path_allowed_def match_whitelist_list_ex)
  from a b example_interpretations show ?thesis by blast
qed

text \<open>Witness of C3. The theorem at a client for the default server address.\<close>

theorem C3_witness:
  "is_path_allowed (example_client [''projects/alpha'', ''daily/*.md'']) ''projects/alpha/notes.md''
   \<and> \<not> is_path_allowed (example_client [''projects/alpha'', ''daily/*.md'']) ''projects/alphabeta''
   \<and> is_path_allowed (example_client [''projects/alpha'', ''daily/*.md'']) ''daily/sub/2024.md''"
  using C3_whitelist_examples
    [where env = None and key = "[]" and p = "''https''" and h = "''127.0.0.1''"
       and po = 27124 and v = False]
  by (simp add: Let_def example_client_def)

section \<open>Claims C4 and C5: the batch fetch\<close>

lemma snd_get_text: "snd (get_text net log u) = log @ [HttpGet u]"
  by (simp add: get_text_def send_def Let_def)

lemma safe_call_get_text_no_PermissionError:
  "safe_call (fst (get_text net log u)) \<noteq> Inl (PermissionError m)"
  by (simp add: get_text_def send_def Let_def and_then_def raise_for_status_def response_json_def
      no_attribute_def split: transport.splits sum.splits json.splits option.splits)

lemma batch_item_denied:
  "\<not> is_path_allowed self p \<Longrightarrow>
   batch_item self net log i p
   = (block p (''Access denied: Path '' @ [CHR 0x27] @ p @ [CHR 0x27] @ '' is not in the whitelist''), log)"
  by (simp add: batch_item_def batch_try_def validate_path_access_def quoted_def)

lemma batch_item_allowed:
  assumes "is_path_allowed self p"
  shows "batch_item self net log i p
   = (case safe_call (fst (get_text net (if i > 0 then log @ [Sleep 100] else log)
                             (get_base_url self @ ''/vault/'' @ p))) of
        Inr body \<Rightarrow> block p body
      | Inl e \<Rightarrow> block p (''Error reading file: '' @ err_str e),
      (if i > 0 then log @ [Sleep 100] else log) @ [HttpGet (get_base_url self @ ''/vault/'' @ p)])"
proof -
  let ?log1 = "if i > 0 then log @ [Sleep 100] else log"
  let ?u = "get_base_url self @ ''/vault/'' @ p"
  obtain r l where g: "get_text net ?log1 ?u = (r, l)" by (cases "get_text net ?log1 ?u")
  then have l: "l = ?log1 @ [HttpGet ?u]" using snd_get_text [of net ?log1 ?u] by simp
  from g have r: "r = fst (get_text net ?log1 ?u)" by simp
  have np: "safe_call r \<noteq> Inl (PermissionError m)" for m
    unfolding r by (rule safe_call_get_text_no_PermissionError)
  have bt: "batch_try self net log i p
        = (and_then (safe_call r) (\<lambda>content. Inr (block p content)), l)"
    using assms g by (simp add: batch_try_def validate_path_access_def Let_def)
  show ?thesis
  proof (cases "safe_call r")
    case (Inr body)
    with bt show ?thesis unfolding r [symmetric] l [symmetric]
      by (simp add: batch_item_def and_then_def)
  next
    case (Inl e)
    with np have "\<forall>m. e \<noteq> PermissionError m" by auto
    with Inl bt show ?thesis unfolding r [symmetric] l [symmetric]
      by (cases e) (auto simp: batch_item_def and_then_def)
  qed
qed

lemma fst_batch_loop_Cons:
  "fst (batch_loop self net log i (p # ps))
   = fst (batch_item self net log i p)
     # fst (batch_loop self net (snd (batch_item self net log i p)) (Suc i) ps)"
  by (simp add: Let_def case_prod_beta)

lemma snd_batch_loop_Cons:
  "snd (batch_loop self net log i (p # ps))
   = snd (batch_loop self net (snd (batch_item self net log i p)) (Suc i) ps)"
  by (simp add: Let_def case_prod_beta)

lemma batch_loop_length: "length (fst (batch_loop self net log i ps)) = length ps"
  by (induction ps arbitrary: log i) (simp_all add: fst_batch_loop_Cons del: batch_loop.simps(2))


lemma snd_batch_item:
  "snd (batch_item self net log i p)
   = log @ (if is_path_allowed self p
            then (if i > 0 then [Sleep 100] else []) @ [HttpGet (get_base_url self @ ''/vault/'' @ p)]
            else [])"
  by (simp add: batch_item_allowed batch_item_denied)

lemma batch_loop_log:
  "snd (batch_loop self net log i ps)
   = log @ concat (map (\<lambda>(k, p). if is_path_allowed self p
                         then (if k > 0 then [Sleep 100] else [])
                                @ [HttpGet (get_base_url self @ ''/vault/'' @ p)]
                         else []) (enumerate i ps))"
proof (induction ps arbitrary: log i)
  case Nil show ?case by simp
next
  case (Cons p ps)
  have "snd (batch_loop self net log i (p # ps))
        = snd (batch_item self net log i p)
          @ concat (map (\<lambda>(k, p). if is_path_allowed self p
                         then (if k > 0 then [Sleep 100] else [])
                                @ [HttpGet (get_base_url self @ ''/vault/'' @ p)]
                         else []) (enumerate (Suc i) ps))"
    unfolding snd_batch_loop_Cons by (rule Cons.IH)
  then show ?case
    unfolding snd_batch_item by simp
qed



text \<open>
  C5, as amended. The log of a batch fetch holds, for each allowed path in order, its
  request, and before the request a sleep of 100 ms when the item's index is above 0.
  The access check comes before the sleep: a denied path adds nothing to the log, neither
  a sleep nor a request. The item of index 0 is never preceded by a sleep.
\<close>

theorem C5_delay_precedes_each_later_request:
  "snd (get_batch_file_contents self net log filepaths)
   = log @ concat (map (\<lambda>(i, p). if is_path_allowed self p
                         then (if i > 0 then [Sleep 100] else [])
                                @ [HttpGet (get_base_url self @ ''/vault/'' @ p)]
                         else []) (enumerate 0 filepaths))"
  by (simp add: get_batch_file_contents_def case_prod_beta batch_loop_log del: batch_loop.simps)

text \<open>Witness of C5. The theorem at the three paths above: one sleep, before the request of index 2.\<close>

theorem C5_witness:
  "snd (get_batch_file_contents (example_client [''ok.md'', ''missing.md'']) batch_server []
          [''ok.md'', ''denied.md'', ''missing.md''])
   = [HttpGet ''https://127.0.0.1:27124/vault/ok.md'', Sleep 100,
      HttpGet ''https://127.0.0.1:27124/vault/missing.md'']"
proof -
  have a: "is_path_allowed (example_client [''ok.md'', ''missing.md'']) ''ok.md''"
    "\<not> is_path_allowed (example_client [''ok.md'', ''missing.md'']) ''denied.md''"
    "is_path_allowed (example_client [''ok.md'', ''missing.md'']) ''missing.md''"
    by code_simp+
  show ?thesis
    unfolding C5_delay_precedes_each_later_request
    by (simp add: a example_base_url)
qed

text \<open>
  C5 as stated fails: the denied path at index 1 is processed (the batch has two blocks)
  and no sleep precedes it; the log holds the first request only.
\<close>

theorem C5_counterexample:
  "\<not> is_path_allowed (example_client [''ok.md'', ''missing.md'']) ''denied.md''
   \<and> length (fst (batch_loop (example_client [''ok.md'', ''missing.md'']) batch_server [] 0
                    [''ok.md'', ''denied.md''])) = 2
   \<and> snd (get_batch_file_contents (example_client [''ok.md'', ''missing.md'']) batch_server []
            [''ok.md'', ''denied.md''])
     = [HttpGet ''https://127.0.0.1:27124/vault/ok.md'']"
proof -
  have a: "is_path_allowed (example_client [''ok.md'', ''missing.md'']) ''ok.md''"
    "\<not> is_path_allowed (example_client [''ok.md'', ''missing.md'']) ''denied.md''"
    by code_simp+
  show ?thesis
    by (simp add: a example_base_url batch_loop_length batch_loop_log
        get_batch_file_contents_def case_prod_beta del: batch_loop.simps)
qed

section \<open>Claim C6: the access check comes before the request\<close>

text \<open>
  C6. Reading a file and listing a directory check the path first. For a denied path
  the operation fails with the \<open>PermissionError\<close> whose message holds the path as it was
  given, and the log is unchanged: no request was sent. For an allowed path the log
  grows by exactly the one request of the operation.
\<close>

theorem C6_access_check_precedes_the_request:
  "(is_path_allowed self path \<longrightarrow>
      snd (get_file_contents self net log path)
        = log @ [HttpGet (get_base_url self @ ''/vault/'' @ path)]
      \<and> snd (list_files_in_dir self net log path)
        = log @ [HttpGet (get_base_url self @ ''/vault/'' @ path @ ''/'')])
   \<and> (\<not> is_path_allowed self path \<longrightarrow>
      get_file_contents self net log path
        = (Inl (PermissionError
             (''Access denied: Path '' @ [CHR 0x27] @ path @ [CHR 0x27] @ '' is not in the whitelist'')), log)
      \<and> list_files_in_dir self net log path
        = (Inl (PermissionError
             (''Access denied: Path '' @ [CHR 0x27] @ path @ [CHR 0x27] @ '' is not in the whitelist'')), log))"
  by (simp add: get_file_contents_def list_files_in_dir_def validate_path_access_def quoted_def
      get_text_def send_def Let_def split: prod.splits)

text \<open>
  Witness of C6. The theorem at a client that allows \<open>notes\<close>: the path \<open>/secret/plan.md\<close> is
  denied, with its leading separator in the message; \<open>notes/a.md\<close> is requested.
\<close>

theorem C6_witness:
  "get_file_contents (example_client [''notes'']) batch_server [] ''/secret/plan.md''
   = (Inl (PermissionError
        (''Access denied: Path '' @ [CHR 0x27] @ ''/secret/plan.md'' @ [CHR 0x27]
           @ '' is not in the whitelist'')), [])
   \<and> snd (get_file_contents (example_client [''notes'']) batch_server [] ''notes/a.md'')
   = [HttpGet ''https://127.0.0.1:27124/vault/notes/a.md'']"
proof -
  have d: "\<not> is_path_allowed (example_client [''notes'']) ''/secret/plan.md''"
    by code_simp
  have a: "is_path_allowed (example_client [''notes'']) ''notes/a.md''"
    by code_simp
  from d a example_base_url [of "[''notes'']"]
    C6_access_check_precedes_the_request
      [of "example_client [''notes'']" "''/secret/plan.md''" batch_server "[]"]
    C6_access_check_precedes_the_request
      [of "example_client [''notes'']" "''notes/a.md''" batch_server "[]"]
  show ?thesis by simp
qed

section \<open>Claim C7: the path of a structured-query result\<close>

lemma glob_match_empty_name: "glob_match ts [] = (set ts \<subseteq> {STAR})"
proof (induction ts)
  case Nil show ?case by simp
next
  case (Cons t ts) then show ?case by (cases t) auto
qed

lemma set_tok_not_STAR: "set_tok stuff \<noteq> STAR"
  by (simp add: set_tok_def Let_def)

lemma translate_only_stars: "(set (translate p) \<subseteq> {STAR}) = (set p \<subseteq> {CHR ''*''})"
proof (induction p rule: translate.induct)
  case 1 show ?case by simp
next
  case (2 c rest)
  show ?case
  proof (cases "c = CHR ''*''")
    case True
    with 2 show ?thesis by (auto split: list.splits glob_tok.splits)
  next
    case False
    then show ?thesis by (auto simp: set_tok_not_STAR split: option.splits)
  qed
qed

lemma fnmatch_empty_name: "fnmatch [] q = (set q \<subseteq> {CHR ''*''})"
  by (simp add: fnmatch_def glob_match_empty_name translate_only_stars)

lemma match_whitelist_empty_path:
  "match_whitelist [] wl = (\<exists>pattern\<in>set wl. set (py_strip ''/'' pattern) \<subseteq> {CHR ''*''})"
  by (induction wl) (auto simp: Let_def startswith_def fnmatch_empty_name)

lemma py_strip_empty: "py_strip chars [] = []"
  by (simp add: py_strip_def)

text \<open>
  C7, as amended. The filter of the structured-query search takes a result's \<open>path\<close>,
  else its \<open>filename\<close>, else the empty string, and keeps the result when that path is
  allowed. A result that falls back to the empty string is dropped by an enabled policy
  unless some pattern is, after normalization, empty or made of \<open>*\<close> only; such a
  pattern matches the empty path and the result is kept. The filtered list is what the
  search returns.
\<close>

theorem C7_result_path_and_the_empty_default:
  "(map_of kvs ''path'' = Some v \<longrightarrow> result_path (JObject kvs) = Inr v)
   \<and> (map_of kvs ''path'' = None \<and> map_of kvs ''filename'' = Some v \<longrightarrow>
        result_path (JObject kvs) = Inr v)
   \<and> (map_of kvs ''path'' = None \<and> map_of kvs ''filename'' = None \<longrightarrow>
        result_path (JObject kvs) = Inr (JString []))
   \<and> (whitelist_enabled self \<and> map_of kvs ''path'' = None \<and> map_of kvs ''filename'' = None \<longrightarrow>
        filter_loop self result_path (JObject kvs # rest)
        = and_then (filter_loop self result_path rest)
            (\<lambda>ys. Inr (if \<exists>pattern\<in>set (whitelist self). set (py_strip ''/'' pattern) \<subseteq> {CHR ''*''}
                         then JObject kvs # ys else ys)))
   \<and> (whitelist_enabled self
        \<and> net (log @ [HttpPost (get_base_url self @ ''/search/'') query]) = Responds r
        \<and> \<not> (400 \<le> status_code r \<and> status_code r < 600)
        \<and> json r = Inr (JArray results)
        \<and> filter_loop self result_path results = Inr kept \<longrightarrow>
        fst (search_json self net log query) = Inr (JArray kept))"
  by (simp add: result_path_def dict_get_def and_then_def is_path_allowed_dyn_def
      is_path_allowed_def match_whitelist_empty_path py_strip_empty search_json_def send_def
      Let_def raise_for_status_def response_json_def py_iter_def)

text \<open>
  Witness of C7. The theorem at a client that allows \<open>notes\<close>: a result with neither field is dropped,
  the next one is kept; and at a result that has a \<open>filename\<close> only.
\<close>

theorem C7_witness:
  "filter_loop (example_client [''notes'']) result_path
     (JObject [(''score'', JNum 1)] # [JObject [(''path'', JString ''notes/a.md'')]])
   = Inr [JObject [(''path'', JString ''notes/a.md'')]]
   \<and> result_path (JObject [(''filename'', JString ''f.md'')]) = Inr (JString ''f.md'')"
proof -
  let ?self = "example_client [''notes'']"
  have r: "filter_loop ?self result_path [JObject [(''path'', JString ''notes/a.md'')]]
           = Inr [JObject [(''path'', JString ''notes/a.md'')]]"
    by code_simp
  have w: "whitelist ?self = [''notes'']" and e: "whitelist_enabled ?self"
    by (simp_all add: example_whitelist)
  have s: "py_strip ''/'' ''notes'' = ''notes''" by code_simp
  have n: "\<not> (\<exists>pattern\<in>set (whitelist ?self). set (py_strip ''/'' pattern) \<subseteq> {CHR ''*''})"
    by (simp add: w s)
  have m: "map_of [(''score'', JNum 1)] ''path'' = None"
    "map_of [(''score'', JNum 1)] ''filename'' = None"
    "map_of [(''filename'', JString ''f.md'')] ''path'' = None"
    "map_of [(''filename'', JString ''f.md'')] ''filename'' = Some (JString ''f.md'')"
    by simp_all
  have "filter_loop ?self result_path
          (JObject [(''score'', JNum 1)] # [JObject [(''path'', JString ''notes/a.md'')]])
        = and_then (filter_loop ?self result_path [JObject [(''path'', JString ''notes/a.md'')]])
            (\<lambda>ys. Inr (if \<exists>pattern\<in>set (whitelist ?self). set (py_strip ''/'' pattern) \<subseteq> {CHR ''*''}
                         then JObject [(''score'', JNum 1)] # ys else ys))"
    using e m
      C7_result_path_and_the_empty_default
        [where self = ?self and kvs = "[(''score'', JNum 1)]"
           and rest = "[JObject [(''path'', JString ''notes/a.md'')]]"]
    by blast
  then have a: "filter_loop ?self result_path
          (JObject [(''score'', JNum 1)] # [JObject [(''path'', JString ''notes/a.md'')]])
        = Inr [JObject [(''path'', JString ''notes/a.md'')]]"
    by (simp only: r n and_then_def if_False sum.case)
  have b: "result_path (JObject [(''filename'', JString ''f.md'')]) = Inr (JString ''f.md'')"
    using m
      C7_result_path_and_the_empty_default
        [where kvs = "[(''filename'', JString ''f.md'')]" and v = "JString ''f.md''"]
    by blast
  from a b show ?thesis by blast
qed

text \<open>
  C7 as stated fails: with the policy enabled by the single pattern \<open>*\<close>, a result
  with neither field defaults to the empty string and is returned.
\<close>

theorem C7_counterexample:
  "whitelist_enabled (example_client [''*''])
   \<and> result_path (JObject [(''score'', JNum 1)]) = Inr (JString [])
   \<and> fst (search_json (example_client [''*'']) search_server [] (JObject []))
     = Inr (JArray [JObject [(''score'', JNum 1)]])"
proof -
  let ?self = "example_client [''*'']"
  have e: "whitelist_enabled ?self" by (simp add: example_whitelist)
  have p: "result_path (JObject [(''score'', JNum 1)]) = Inr (JString [])" by code_simp
  have f: "filter_loop ?self result_path [JObject [(''score'', JNum 1)]]
           = Inr [JObject [(''score'', JNum 1)]]"
    by code_simp
  from e p f show ?thesis
    by (simp add: search_json_def send_def Let_def and_then_def raise_for_status_def
        response_json_def py_iter_def search_server_def answer_def)
qed

section \<open>Claim C8: the transport scheme\<close>

lemma of_char_lower: "(of_char (lower_char c) :: nat)
    = (if (65::nat) \<le> of_char c \<and> (of_char c :: nat) \<le> 90 then of_char c + 32 else of_char c)"
  by (simp add: lower_char_def)

lemma char_eq_code: "(x = y) = ((of_char x :: nat) = of_char y)"
  by simp

lemma lower_h: "(lower_char c = CHR ''h'') = (c = CHR ''h'' \<or> c = CHR ''H'')"
  unfolding char_eq_code [of _ "CHR ''h''"] char_eq_code [of _ "CHR ''H''"] of_char_lower
  by (simp split: if_splits) arith

lemma lower_t: "(lower_char c = CHR ''t'') = (c = CHR ''t'' \<or> c = CHR ''T'')"
  unfolding char_eq_code [of _ "CHR ''t''"] char_eq_code [of _ "CHR ''T''"] of_char_lower
  by (simp split: if_splits) arith

lemma lower_p: "(lower_char c = CHR ''p'') = (c = CHR ''p'' \<or> c = CHR ''P'')"
  unfolding char_eq_code [of _ "CHR ''p''"] char_eq_code [of _ "CHR ''P''"] of_char_lower
  by (simp split: if_splits) arith

lemma py_lower_map: "py_lower s = map lower_char s"
  by (simp add: py_lower_def)

lemma py_lower_http:
  "(py_lower s = ''http'')
   = (length s = 4 \<and> s ! 0 \<in> {CHR ''h'', CHR ''H''} \<and> s ! 1 \<in> {CHR ''t'', CHR ''T''}
        \<and> s ! 2 \<in> {CHR ''t'', CHR ''T''} \<and> s ! 3 \<in> {CHR ''p'', CHR ''P''})"
proof (cases s)
  case Nil then show ?thesis by (simp add: py_lower_map)
next
  case (Cons a s1)
  show ?thesis
  proof (cases s1)
    case Nil with Cons show ?thesis by (simp add: py_lower_map)
  next
    case (Cons b s2)
    note c2 = Cons
    show ?thesis
    proof (cases s2)
      case Nil with c2 \<open>s = a # s1\<close> show ?thesis by (simp add: py_lower_map)
    next
      case (Cons c s3)
      note c3 = Cons
      show ?thesis
      proof (cases s3)
        case Nil with c2 c3 \<open>s = a # s1\<close> show ?thesis by (simp add: py_lower_map)
      next
        case (Cons d s4)
        with c2 c3 \<open>s = a # s1\<close> show ?thesis
          by (auto simp: py_lower_map lower_h lower_t lower_p)
      qed
    qed
  qed
qed

text \<open>
  C8, as amended. The constructor lowercases the configured scheme before it compares:
  the client uses \<open>http\<close> exactly when the value is \<open>http\<close> in any letter case, and
  \<open>https\<close> for every other value.
\<close>

theorem C8_scheme_is_matched_in_any_letter_case:
  "protocol (init env key p h po v w)
   = (if length p = 4 \<and> p ! 0 \<in> {CHR ''h'', CHR ''H''} \<and> p ! 1 \<in> {CHR ''t'', CHR ''T''}
        \<and> p ! 2 \<in> {CHR ''t'', CHR ''T''} \<and> p ! 3 \<in> {CHR ''p'', CHR ''P''}
      then ''http'' else ''https'')"
  by (simp add: init_def Let_def py_lower_http del: One_nat_def)

text \<open>Witness of C8. The theorem at \<open>Http\<close> and at a value that is no scheme.\<close>

theorem C8_witness:
  "protocol (init None [] ''Http'' ''127.0.0.1'' 27124 False None) = ''http''
   \<and> protocol (init None [] ''gopher'' ''127.0.0.1'' 27124 False None) = ''https''"
  using C8_scheme_is_matched_in_any_letter_case
    [where env = None and key = "[]" and p = "''Http''" and h = "''127.0.0.1''"
       and po = 27124 and v = False and w = None]
    C8_scheme_is_matched_in_any_letter_case
    [where env = None and key = "[]" and p = "''gopher''" and h = "''127.0.0.1''"
       and po = 27124 and v = False and w = None]
  by simp

text \<open>
  C8 as stated fails: the uppercase value \<open>HTTP\<close> is not the exact lowercase string,
  and the client uses \<open>http\<close>.
\<close>

theorem C8_counterexample:
  "protocol (init None [] ''HTTP'' ''127.0.0.1'' 27124 False None) = ''http''"
  by code_simp

section \<open>Claim C9: the disabled policy\<close>

text \<open>
  C9. The constructor sets \<open>whitelist_enabled\<close> to (number of patterns > 0). A client
  whose \<open>whitelist_enabled\<close> is false allows every path, whatever its pattern list
  holds; so a client constructed with no pattern allows every path.
\<close>

theorem C9_disabled_policy_allows_every_path:
  "whitelist_enabled (init env key p h po v w) = (length (whitelist (init env key p h po v w)) > 0)
   \<and> (\<not> whitelist_enabled self \<longrightarrow> is_path_allowed self path)
   \<and> (whitelist (init env key p h po v w) = [] \<longrightarrow> is_path_allowed (init env key p h po v w) path)"
  by (simp add: init_def Let_def is_path_allowed_def)

text \<open>
  Witness of C9. The theorem at a client constructed with no pattern, and at a client record whose flag
  is off while its list holds a pattern.
\<close>

theorem C9_witness:
  "\<not> whitelist_enabled (example_client [])
   \<and> is_path_allowed (example_client []) ''secret/plan.md''
   \<and> is_path_allowed
        ((example_client [])\<lparr>whitelist := [''notes'']\<rparr>)
        ''secret/plan.md''"
  using C9_disabled_policy_allows_every_path
    [where env = None and key = "[]" and p = "''https''" and h = "''127.0.0.1''"
       and po = 27124 and v = False and w = "Some []" and path = "''secret/plan.md''"
       and self = "(example_client [])\<lparr>whitelist := [''notes'']\<rparr>"]
  by (simp add: example_client_def init_def)

section \<open>Claim C10: the listing filters\<close>

lemma filter_loop_strings:
  assumes "\<And>f. key (JString f) = Inr (JString (pth f))"
  shows "filter_loop self key (map JString fs)
         = Inr (map JString (filter (\<lambda>f. is_path_allowed self (pth f)) fs))"
  by (induction fs) (simp_all add: assms and_then_def is_path_allowed_dyn_def)

lemma full_path_string:
  "full_path dirpath (JString f) = JString (if dirpath \<noteq> [] then dirpath @ ''/'' @ f else f)"
  by (simp add: full_path_def py_str_def)

lemma filter_all_allowed: "\<not> whitelist_enabled self \<Longrightarrow> filter (\<lambda>f. is_path_allowed self (g f)) fs = fs"
  by (simp add: is_path_allowed_def)

text \<open>
  C10. When the server answers a listing request with a success status and a JSON body
  whose \<open>files\<close> is a list of entry names, the root listing returns the entries that
  are allowed, and the directory listing the entries whose full path (the directory, a
  separator and the entry; the bare entry for the empty directory) is allowed. Both
  results are subsequences of the server's list, in its order, and with the whitelist
  disabled both are the server's list.
\<close>

theorem C10_listings_keep_the_allowed_entries_in_order:
  "(net (log @ [HttpGet (get_base_url self @ ''/vault/'')]) = Responds r
      \<and> \<not> (400 \<le> status_code r \<and> status_code r < 600)
      \<and> json r = Inr (JObject kvs)
      \<and> map_of kvs ''files'' = Some (JArray (map JString files))
    \<longrightarrow> fst (list_files_in_vault self net log)
          = Inr (JArray (map JString (filter (is_path_allowed self) files)))
        \<and> subseq (filter (is_path_allowed self) files) files
        \<and> (\<not> whitelist_enabled self \<longrightarrow>
             fst (list_files_in_vault self net log) = Inr (JArray (map JString files))))
   \<and> (is_path_allowed self dirpath
      \<and> net (log @ [HttpGet (get_base_url self @ ''/vault/'' @ dirpath @ ''/'')]) = Responds r
      \<and> \<not> (400 \<le> status_code r \<and> status_code r < 600)
      \<and> json r = Inr (JObject kvs)
      \<and> map_of kvs ''files'' = Some (JArray (map JString files))
    \<longrightarrow> fst (list_files_in_dir self net log dirpath)
          = Inr (JArray (map JString
               (filter (\<lambda>f. is_path_allowed self (if dirpath \<noteq> [] then dirpath @ ''/'' @ f else f)) files)))
        \<and> subseq (filter (\<lambda>f. is_path_allowed self (if dirpath \<noteq> [] then dirpath @ ''/'' @ f else f)) files) files
        \<and> (\<not> whitelist_enabled self \<longrightarrow>
             fst (list_files_in_dir self net log dirpath) = Inr (JArray (map JString files))))"
proof -
  have root: "fst (list_files_in_vault self net log)
          = Inr (JArray (map JString (filter (is_path_allowed self) files)))"
    if "net (log @ [HttpGet (get_base_url self @ ''/vault/'')]) = Responds r"
      "\<not> (400 \<le> status_code r \<and> status_code r < 600)"
      "json r = Inr (JObject kvs)"
      "map_of kvs ''files'' = Some (JArray (map JString files))"
  proof (cases "whitelist_enabled self")
    case True
    with that show ?thesis
      by (simp add: list_files_in_vault_def send_def Let_def and_then_def raise_for_status_def
          response_json_def py_getitem_def filter_files_by_whitelist_def py_iter_def
          filter_loop_strings [of Inr "\<lambda>f. f"])
  next
    case False
    with that show ?thesis
      by (simp add: list_files_in_vault_def send_def Let_def and_then_def raise_for_status_def
          response_json_def py_getitem_def filter_files_by_whitelist_def is_path_allowed_def)
  qed
  have dir: "fst (list_files_in_dir self net log dirpath)
          = Inr (JArray (map JString
               (filter (\<lambda>f. is_path_allowed self (if dirpath \<noteq> [] then dirpath @ ''/'' @ f else f)) files)))"
    if "is_path_allowed self dirpath"
      "net (log @ [HttpGet (get_base_url self @ ''/vault/'' @ dirpath @ ''/'')]) = Responds r"
      "\<not> (400 \<le> status_code r \<and> status_code r < 600)"
      "json r = Inr (JObject kvs)"
      "map_of kvs ''files'' = Some (JArray (map JString files))"
    using that
    by (simp add: list_files_in_dir_def validate_path_access_def send_def Let_def and_then_def
        raise_for_status_def response_json_def py_getitem_def py_iter_def
        filter_loop_strings [of "\<lambda>file. Inr (full_path dirpath file)"
          "\<lambda>f. if dirpath \<noteq> [] then dirpath @ ''/'' @ f else f"] full_path_string)
  show ?thesis
    using root dir by (auto simp: filter_all_allowed)
qed


text \<open>
  Witness of C10. The theorem at a client with the patterns \<open>doc?\<close> and \<open>docs/*.md\<close> and a server
  that answers every request with the entries \<open>a.md\<close>, \<open>img.png\<close>, \<open>docs\<close>.
\<close>

theorem C10_witness:
  "fst (list_files_in_vault (example_client [''doc?'', ''docs/*.md'']) listing_server [])
     = Inr (JArray [JString ''docs''])
   \<and> fst (list_files_in_dir (example_client [''doc?'', ''docs/*.md'']) listing_server [] ''docs'')
     = Inr (JArray [JString ''a.md''])"
proof -
  let ?self = "example_client [''doc?'', ''docs/*.md'']"
  let ?files = "JArray [JString ''a.md'', JString ''img.png'', JString ''docs'']"
  have d: "is_path_allowed ?self ''docs''" by code_simp
  have f1: "filter (is_path_allowed ?self) [''a.md'', ''img.png'', ''docs''] = [''docs'']"
    by code_simp
  have f2: "filter (\<lambda>f. is_path_allowed ?self (''docs'' @ ''/'' @ f)) [''a.md'', ''img.png'', ''docs'']
            = [''a.md'']"
    by code_simp
  from d f1 f2
    C10_listings_keep_the_allowed_entries_in_order
      [where self = ?self and net = listing_server and log = "[]"
         and r = "answer 200 ''OK''
             (''{'' @ dq @ ''files'' @ dq @ '': ['' @ dq @ ''a.md'' @ dq @ '', '' @ dq @ ''img.png'' @ dq
                @ '', '' @ dq @ ''docs'' @ dq @ '']}'')
             (Inr (JObject [(''files'', ?files)]))"
         and kvs = "[(''files'', ?files)]"
         and files = "[''a.md'', ''img.png'', ''docs'']" and dirpath = "''docs''"]
  show ?thesis by (simp add: listing_server_def answer_def)
qed

end
